theory Spec2Isabelle
  imports Main "HOL-Library.Char_ord" "HOL-Library.List_Lexorder"
begin

text \<open>
  A model of the two engines of the repository that decide something: the policy
  evaluator \<open>evaluate_policies\<close> of \<open>src/policy_engine.py\<close> and the column classifier
  \<open>detect_by_name\<close>, \<open>detect_by_values\<close> and \<open>scan_dataframe\<close> of
  \<open>src/tagging_engine.py\<close>. Inputs are the values these functions are written for: a
  policy document whose rules are dictionaries with the keys \<open>id\<close>, \<open>forbidden_tags\<close>,
  \<open>applies_to_tables\<close>, \<open>table_name_prefix\<close> and \<open>require_tag_for_detected\<close> of the
  types the code expects, a registry data frame with the columns \<open>table\<close>, \<open>column\<close> and
  \<open>pii_tags\<close>, and a data frame whose column labels are strings. On such inputs neither
  function raises, so both are total functions that return lists.
\<close>

section \<open>Text primitives of the Python runtime\<close>

text \<open>
  Python \<open>str\<close> values are modelled as HOL strings. The order on strings used by
  \<open>sorted\<close> is the lexicographic order on character codes, which is the order
  \<open>HOL-Library.List_Lexorder\<close> and \<open>HOL-Library.Char_ord\<close> give.
\<close>

text \<open>\<open>sep.join(parts)\<close>\<close>

fun join :: "string \<Rightarrow> string list \<Rightarrow> string" where
  "join sep [] = []"
| "join sep [x] = x"
| "join sep (x # y # ys) = x @ sep @ join sep (y # ys)"

text \<open>\<open>s.split(d)\<close> for a one-character separator: the empty string gives \<open>['']\<close>.\<close>

fun split_on :: "char \<Rightarrow> string \<Rightarrow> string list" where
  "split_on d [] = [[]]"
| "split_on d (c # cs) =
     (if c = d then [] # split_on d cs
      else (case split_on d cs of
              [] \<Rightarrow> [[c]]
            | w # ws \<Rightarrow> (c # w) # ws))"

text \<open>\<open>s.startswith(p)\<close>\<close>

definition startswith :: "string \<Rightarrow> string \<Rightarrow> bool" where
  "startswith s p = (take (length p) s = p)"

section \<open>The policy engine (\<open>src/policy_engine.py\<close>)\<close>

text \<open>
  The dataclass \<open>Violation\<close>. The field \<open>policy_id\<close> holds what
  \<open>policy.get("id")\<close> returned, which is \<open>None\<close> for a rule without an id.
\<close>

record Violation =
  policy_id :: "string option"
  table :: string
  column :: string
  pii_tags :: string
  reason :: string

text \<open>
  One entry of the \<open>policies\<close> list: a dictionary read through \<open>.get\<close>. Every key
  is optional; \<open>None\<close> stands for an absent key.
\<close>

record policy =
  rule_id :: "string option"
  forbidden_tags :: "string list option"
  applies_to_tables :: "string list option"
  table_name_prefix :: "string option"
  require_tag_for_detected :: "bool option"

text \<open>
  One row of the registry data frame, with the columns \<open>table\<close>, \<open>column\<close>,
  \<open>pii_tags\<close> and \<open>reason\<close>. The cells \<open>table\<close> and \<open>column\<close> are held as the text
  \<open>str(...)\<close> makes of them; \<open>pii_tags\<close> is \<open>None\<close> for a null cell
  (\<open>pd.notna\<close> false) and otherwise the text \<open>str(...)\<close> makes of it.
\<close>

record registry_row =
  row_table :: string
  row_column :: string
  row_pii_tags :: "string option"
  row_reason :: string

text \<open>\<open>set(str(row["pii_tags"]).split(",")) if pd.notna(row["pii_tags"]) else set()\<close>\<close>

definition row_tags :: "registry_row \<Rightarrow> string set" where
  "row_tags row =
     (case row_pii_tags row of
        None \<Rightarrow> {}
      | Some s \<Rightarrow> set (split_on CHR '','' s))"

text \<open>
  \<open>set(policy.get("applies_to_tables", [])) if policy.get("applies_to_tables") else None\<close>:
  an absent key and an empty list both give \<open>None\<close>.
\<close>

definition applies_tables_of :: "policy \<Rightarrow> string set option" where
  "applies_tables_of p =
     (case applies_to_tables p of
        None \<Rightarrow> None
      | Some ts \<Rightarrow> if ts \<noteq> [] then Some (set ts) else None)"

text \<open>\<open>set(policy.get("forbidden_tags", []))\<close>\<close>

definition forbidden_of :: "policy \<Rightarrow> string set" where
  "forbidden_of p = (case forbidden_tags p of None \<Rightarrow> {} | Some ts \<Rightarrow> set ts)"

text \<open>\<open>policy.get("require_tag_for_detected", False)\<close>\<close>

definition require_of :: "policy \<Rightarrow> bool" where
  "require_of p = (case require_tag_for_detected p of None \<Rightarrow> False | Some b \<Rightarrow> b)"

text \<open>
  The two scope tests of the inner loop; each \<open>continue\<close>s when it holds. The tests
  are Python truth tests: \<open>applies_tables\<close> is false when it is \<open>None\<close> (or empty),
  \<open>name_prefix\<close> is false when it is \<open>None\<close> or the empty string.
\<close>

definition skip_by_tables :: "policy \<Rightarrow> registry_row \<Rightarrow> bool" where
  "skip_by_tables p row =
     (case applies_tables_of p of
        None \<Rightarrow> False
      | Some A \<Rightarrow> A \<noteq> {} \<and> row_table row \<notin> A)"

definition skip_by_prefix :: "policy \<Rightarrow> registry_row \<Rightarrow> bool" where
  "skip_by_prefix p row =
     (case table_name_prefix p of
        None \<Rightarrow> False
      | Some pre \<Rightarrow> pre \<noteq> [] \<and> \<not> startswith (row_table row) pre)"

text \<open>The violation appended by the forbidden-tag check.\<close>

definition forbidden_violation :: "policy \<Rightarrow> registry_row \<Rightarrow> Violation" where
  "forbidden_violation p row =
     \<lparr> policy_id = rule_id p,
       table = row_table row,
       column = row_column row,
       pii_tags = join '','' (sorted_list_of_set (row_tags row)),
       reason = ''forbidden tags present: '' @
                join '','' (sorted_list_of_set (row_tags row \<inter> forbidden_of p)) \<rparr>"

text \<open>The violation appended by the missing-tag check.\<close>

definition missing_violation :: "policy \<Rightarrow> registry_row \<Rightarrow> Violation" where
  "missing_violation p row =
     \<lparr> policy_id = rule_id p,
       table = row_table row,
       column = row_column row,
       pii_tags = [],
       reason = ''detected PII missing tag'' \<rparr>"

text \<open>
  The body of the inner loop for one policy and one row: the violations it appends,
  in the order it appends them.
\<close>

definition row_violations :: "policy \<Rightarrow> registry_row \<Rightarrow> Violation list" where
  "row_violations p row =
     (if skip_by_tables p row then []
      else if skip_by_prefix p row then []
      else (if forbidden_of p \<noteq> {} \<and> row_tags row \<inter> forbidden_of p \<noteq> {}
            then [forbidden_violation p row] else []) @
           (if require_of p \<and> row_tags row = {}
            then [missing_violation p row] else []))"

text \<open>\<open>for _, row in registry.iterrows()\<close>, appending to \<open>violations\<close>.\<close>

fun rows_loop :: "policy \<Rightarrow> registry_row list \<Rightarrow> Violation list \<Rightarrow> Violation list" where
  "rows_loop p [] violations = violations"
| "rows_loop p (row # rows) violations =
     rows_loop p rows (violations @ row_violations p row)"

text \<open>\<open>for policy in policies.get("policies", [])\<close>\<close>

fun policies_loop :: "policy list \<Rightarrow> registry_row list \<Rightarrow> Violation list \<Rightarrow> Violation list" where
  "policies_loop [] registry violations = violations"
| "policies_loop (p # ps) registry violations =
     policies_loop ps registry (rows_loop p registry violations)"

text \<open>
  \<open>evaluate_policies(policies, registry)\<close>. The argument \<open>policies\<close> is the loaded
  document: \<open>None\<close> when it has no key \<open>"policies"\<close>, otherwise the list under it.
\<close>

definition evaluate_policies :: "policy list option \<Rightarrow> registry_row list \<Rightarrow> Violation list" where
  "evaluate_policies policies registry =
     policies_loop (case policies of None \<Rightarrow> [] | Some ps \<Rightarrow> ps) registry []"

section \<open>Regular expressions of the tagging engine\<close>

text \<open>
  The patterns of \<open>src/tagging_engine.py\<close> use literals, character classes, \<open>\d\<close>,
  \<open>\s\<close>, grouping, alternation, \<open>?\<close>, \<open>+\<close>, \<open>{m}\<close>, \<open>{m,}\<close> and the zero-width
  tests \<open>^\<close>, \<open>$\<close> and \<open>\b\<close>. The code only asks whether a match exists
  (\<open>if re.search(...)\<close>, \<open>if pattern.match(v)\<close>), so the matcher computes, for a start
  position, every position at which a match of the expression can end. The classes
  \<open>\d\<close>, \<open>\s\<close> and the word characters of \<open>\b\<close> are given for the characters below
  128, and so is \<open>lower\<close>: the model is of ASCII text.
\<close>

datatype atom = Ch char | Rng char char | Digit | Space

datatype regex =
    Str string
  | Cls "atom list"
  | Seq regex regex
  | Alt regex regex
  | Opt regex
  | Rep regex nat "nat option"
  | Bol
  | Eol
  | WordB

definition is_digit :: "char \<Rightarrow> bool" where
  "is_digit c = (CHR ''0'' \<le> c \<and> c \<le> CHR ''9'')"

text \<open>
  \<open>\s\<close> on a \<open>str\<close> pattern is \<open>str.isspace\<close>: below 128 these are the space, the
  characters 9 to 13 and the separators 28 to 31.
\<close>

definition is_space :: "char \<Rightarrow> bool" where
  "is_space c = (c \<in> set [CHR '' '', CHR 0x09, CHR 0x0A, CHR 0x0B, CHR 0x0C, CHR 0x0D,
                           CHR 0x1C, CHR 0x1D, CHR 0x1E, CHR 0x1F])"

definition is_word :: "char \<Rightarrow> bool" where
  "is_word c = ((CHR ''a'' \<le> c \<and> c \<le> CHR ''z'') \<or> (CHR ''A'' \<le> c \<and> c \<le> CHR ''Z'')
                \<or> is_digit c \<or> c = CHR ''_'')"

fun atom_match :: "atom \<Rightarrow> char \<Rightarrow> bool" where
  "atom_match (Ch d) c = (c = d)"
| "atom_match (Rng lo hi) c = (lo \<le> c \<and> c \<le> hi)"
| "atom_match Digit c = is_digit c"
| "atom_match Space c = is_space c"

text \<open>Is position \<open>i\<close> of \<open>s\<close> a word character (positions outside the string are not).\<close>

definition word_at :: "string \<Rightarrow> nat \<Rightarrow> bool" where
  "word_at s i = (i < length s \<and> is_word (s ! i))"

text \<open>\<open>\b\<close> at position \<open>i\<close>: exactly one of the characters before and after is a word character.\<close>

definition boundary :: "string \<Rightarrow> nat \<Rightarrow> bool" where
  "boundary s i = ((i > 0 \<and> word_at s (i - 1)) \<noteq> word_at s i)"

text \<open>
  \<open>$\<close> without the MULTILINE flag: at the end of the string, or just before a newline
  that is the last character.
\<close>

definition at_end :: "string \<Rightarrow> nat \<Rightarrow> bool" where
  "at_end s i = (i = length s \<or> (Suc i = length s \<and> s ! i = CHR 0x0A))"

text \<open>One more round of a repeated expression, from every position of \<open>ps\<close>.\<close>

definition round :: "(nat \<Rightarrow> nat list) \<Rightarrow> nat list \<Rightarrow> nat list" where
  "round f ps = remdups (concat (map f ps))"

text \<open>Exactly \<open>k\<close> rounds.\<close>

fun rounds_exact :: "(nat \<Rightarrow> nat list) \<Rightarrow> nat \<Rightarrow> nat list \<Rightarrow> nat list" where
  "rounds_exact f 0 ps = ps"
| "rounds_exact f (Suc k) ps = rounds_exact f k (round f ps)"

text \<open>Between zero and \<open>k\<close> rounds.\<close>

fun rounds_upto :: "(nat \<Rightarrow> nat list) \<Rightarrow> nat \<Rightarrow> nat list \<Rightarrow> nat list" where
  "rounds_upto f 0 ps = ps"
| "rounds_upto f (Suc k) ps = ps @ rounds_upto f k (round f ps)"

text \<open>
  \<open>ends r s i\<close>: the positions where a match of \<open>r\<close> that starts at position \<open>i\<close> of
  \<open>s\<close> can end. For \<open>{m,}\<close> no position needs more than \<open>length s\<close> rounds beyond the
  first \<open>m\<close>, since a round that consumes nothing reaches nothing new.
\<close>

primrec ends :: "regex \<Rightarrow> string \<Rightarrow> nat \<Rightarrow> nat list" where
  "ends (Str w) = (\<lambda>s i. if take (length w) (drop i s) = w then [i + length w] else [])"
| "ends (Cls as) = (\<lambda>s i. if i < length s \<and> list_ex (\<lambda>a. atom_match a (s ! i)) as
                            then [Suc i] else [])"
| "ends (Seq a b) = (\<lambda>s i. concat (map (ends b s) (ends a s i)))"
| "ends (Alt a b) = (\<lambda>s i. ends a s i @ ends b s i)"
| "ends (Opt a) = (\<lambda>s i. ends a s i @ [i])"
| "ends (Rep a m mx) = (\<lambda>s i.
     rounds_upto (ends a s) (case mx of None \<Rightarrow> length s | Some n \<Rightarrow> n - m)
       (rounds_exact (ends a s) m [i]))"
| "ends Bol = (\<lambda>s i. if i = 0 then [i] else [])"
| "ends Eol = (\<lambda>s i. if at_end s i then [i] else [])"
| "ends WordB = (\<lambda>s i. if boundary s i then [i] else [])"

text \<open>\<open>pattern.match(v)\<close> as a truth value: a match that starts at position 0.\<close>

definition re_match :: "regex \<Rightarrow> string \<Rightarrow> bool" where
  "re_match r s = (ends r s 0 \<noteq> [])"

text \<open>\<open>re.search(pattern, s)\<close> as a truth value: a match that starts at some position.\<close>

definition re_search :: "regex \<Rightarrow> string \<Rightarrow> bool" where
  "re_search r s = list_ex (\<lambda>i. ends r s i \<noteq> []) [0..<Suc (length s)]"

text \<open>Sequences and alternatives of several expressions.\<close>

fun seqs :: "regex list \<Rightarrow> regex" where
  "seqs [] = Str []"
| "seqs [r] = r"
| "seqs (r # rs) = Seq r (seqs rs)"

fun alts :: "regex \<Rightarrow> regex list \<Rightarrow> regex" where
  "alts r [] = r"
| "alts r (q # qs) = Alt r (alts q qs)"

text \<open>\<open>s.lower()\<close> on ASCII letters.\<close>

definition lower_char :: "char \<Rightarrow> char" where
  "lower_char c =
     (if CHR ''A'' \<le> c \<and> c \<le> CHR ''Z'' then char_of (of_char c + (32::nat)) else c)"

definition lower :: "string \<Rightarrow> string" where
  "lower s = map lower_char s"

section \<open>The tagging engine (\<open>src/tagging_engine.py\<close>)\<close>

text \<open>
  The two catalogs are Python dictionaries, iterated in insertion order; they are
  association lists here. Each pattern is the source's, clause by clause.
\<close>

abbreviation dash_us :: regex where
  "dash_us \<equiv> Opt (Cls [Ch CHR ''-'', Ch CHR ''_''])"

definition PII_COLUMN_NAME_PATTERNS :: "(string \<times> regex) list" where
  "PII_COLUMN_NAME_PATTERNS =
    [(''email'',
        alts (seqs [WordB, Str ''email'', WordB])
          [seqs [Str ''e'', dash_us, Str ''mail'']]),
     (''phone'',
        alts (seqs [WordB, Str ''phone'', WordB])
          [seqs [Str ''contact'', dash_us, Str ''number''],
           Str ''mobile'']),
     (''ip'',
        alts (seqs [Str ''ip'', Opt (seqs [dash_us, Str ''address''])])
          [seqs [Bol, Str ''ip'', Eol]]),
     (''dob'',
        alts (seqs [Str ''date'', dash_us, Str ''of'', dash_us, Str ''birth''])
          [seqs [WordB, Str ''dob'', WordB],
           seqs [Str ''birth'', dash_us, Str ''date'']]),
     (''name'',
        alts (seqs [WordB, Str ''name'', WordB])
          [seqs [Str ''full'', dash_us, Str ''name''],
           seqs [Str ''first'', dash_us, Str ''name''],
           seqs [Str ''last'', dash_us, Str ''name'']]),
     (''national_id'',
        seqs [WordB,
              alts (Str ''ssn'')
                [Str ''nin'', Str ''passport'',
                 seqs [Str ''national'', dash_us, Str ''id''],
                 Str ''aadhar'', Str ''aadhaar''],
              WordB])]"

abbreviation alnum :: "atom list" where
  "alnum \<equiv> [Rng CHR ''A'' CHR ''Z'', Rng CHR ''a'' CHR ''z'', Rng CHR ''0'' CHR ''9'']"

abbreviation digits :: "nat \<Rightarrow> regex" where
  "digits n \<equiv> Rep (Cls [Digit]) n (Some n)"

text \<open>\<open>(?:25[0-5]|2[0-4]\d|[01]?\d\d?)\<close>\<close>

definition octet :: regex where
  "octet =
     alts (seqs [Str ''25'', Cls [Rng CHR ''0'' CHR ''5'']])
       [seqs [Str ''2'', Cls [Rng CHR ''0'' CHR ''4''], Cls [Digit]],
        seqs [Opt (Cls [Ch CHR ''0'', Ch CHR ''1'']), Cls [Digit], Opt (Cls [Digit])]]"

definition PII_VALUE_REGEXES :: "(string \<times> regex) list" where
  "PII_VALUE_REGEXES =
    [(''email'',
        seqs [Bol,
              Rep (Cls (alnum @ [Ch CHR ''.'', Ch CHR ''_'', Ch CHR ''%'', Ch CHR ''+'', Ch CHR ''-''])) 1 None,
              Str ''@'',
              Rep (Cls (alnum @ [Ch CHR ''.'', Ch CHR ''-''])) 1 None,
              Str ''.'',
              Rep (Cls [Rng CHR ''A'' CHR ''Z'', Rng CHR ''a'' CHR ''z'']) 2 None,
              Eol]),
     (''phone'',
        seqs [Bol,
              Opt (Str ''+''),
              Cls [Digit],
              Rep (Cls [Digit, Space, Ch CHR ''('', Ch CHR '')'', Ch CHR ''.'', Ch CHR ''-'']) 7 None,
              Eol]),
     (''ip'',
        seqs [Bol, Rep (seqs [octet, Str ''.'']) 3 (Some 3), octet, Eol]),
     (''dob'',
        seqs [Bol,
              alts (seqs [digits 4, Str ''-'', digits 2, Str ''-'', digits 2])
                [seqs [digits 2, Str ''/'', digits 2, Str ''/'', digits 4]],
              Eol]),
     (''national_id'',
        seqs [Bol, digits 3, Opt (Str ''-''), digits 2, Opt (Str ''-''), digits 4, Eol])]"

text \<open>The dataclass \<open>ColumnPIIResult\<close> (fields \<open>table\<close>, \<open>column\<close>, \<open>detected_tags\<close>,
  \<open>detection_reason\<close>).\<close>

record ColumnPIIResult =
  res_table :: string
  res_column :: string
  detected_tags :: "string list"
  detection_reason :: string

text \<open>
  One column of the data frame: its label, whether its dtype is \<open>object\<close>, and its
  cells in row order. A cell is \<open>None\<close> when \<open>dropna\<close> drops it, and otherwise
  \<open>Some\<close> of the text \<open>astype(str)\<close> makes of it. A data frame is the list of its
  columns, in the order of \<open>df.columns\<close>.
\<close>

record df_column =
  col_name :: string
  col_is_object :: bool
  col_cells :: "string option list"

text \<open>\<open>series.dropna().astype(str)\<close>\<close>

fun dropna :: "string option list \<Rightarrow> string list" where
  "dropna [] = []"
| "dropna (None # cs) = dropna cs"
| "dropna (Some v # cs) = v # dropna cs"

text \<open>The loop of \<open>detect_by_name\<close> over the catalog: the first pattern found wins.\<close>

fun name_loop :: "(string \<times> regex) list \<Rightarrow> string \<Rightarrow> string option" where
  "name_loop [] lower_name = None"
| "name_loop ((tag, pattern) # rest) lower_name =
     (if re_search pattern lower_name then Some tag else name_loop rest lower_name)"

definition detect_by_name :: "string \<Rightarrow> string option" where
  "detect_by_name column_name = name_loop PII_COLUMN_NAME_PATTERNS (lower column_name)"

text \<open>\<open>sum(1 for v in sample if pattern.match(v))\<close>\<close>

definition matches :: "regex \<Rightarrow> string list \<Rightarrow> nat" where
  "matches pattern sample = length (filter (re_match pattern) sample)"

text \<open>The loop of \<open>detect_by_values\<close> over the catalog.\<close>

fun value_loop :: "(string \<times> regex) list \<Rightarrow> string list \<Rightarrow> string option" where
  "value_loop [] sample = None"
| "value_loop ((tag, pattern) # rest) sample =
     (if matches pattern sample \<ge> 3 then Some tag else value_loop rest sample)"

definition detect_by_values :: "string option list \<Rightarrow> string option" where
  "detect_by_values series =
     (let sample = take 50 (dropna series)
      in if sample = [] then None else value_loop PII_VALUE_REGEXES sample)"

text \<open>
  The body of the loop of \<open>scan_dataframe\<close> works on the pair of lists \<open>tags\<close> and
  \<open>reason_parts\<close>. The three steps follow; \<open>if name_tag:\<close> and \<open>if value_tag and ...\<close>
  are Python truth tests, false for \<open>None\<close> and for the empty string.
\<close>

type_synonym tagging = "string list \<times> string list"

definition name_step :: "df_column \<Rightarrow> tagging \<Rightarrow> tagging" where
  "name_step col st =
     (case detect_by_name (col_name col) of
        None \<Rightarrow> st
      | Some name_tag \<Rightarrow>
          if name_tag \<noteq> [] then (fst st @ [name_tag], snd st @ [''name:'' @ name_tag])
          else st)"

definition value_step :: "df_column \<Rightarrow> tagging \<Rightarrow> tagging" where
  "value_step col st =
     (case detect_by_values (col_cells col) of
        None \<Rightarrow> st
      | Some value_tag \<Rightarrow>
          if value_tag \<noteq> [] \<and> value_tag \<notin> set (fst st)
          then (fst st @ [value_tag], snd st @ [''value:'' @ value_tag])
          else st)"

text \<open>\<open>sum(1 for v in sampled if " " in v)\<close>\<close>

definition with_spaces :: "string list \<Rightarrow> nat" where
  "with_spaces sampled = length (filter (\<lambda>v. CHR '' '' \<in> set v) sampled)"

definition heuristic_step :: "df_column \<Rightarrow> tagging \<Rightarrow> tagging" where
  "heuristic_step col st =
     (if fst st = [] \<and> col_is_object col then
        (let sampled = take 20 (dropna (col_cells col))
         in if sampled \<noteq> [] \<and> with_spaces sampled \<ge> 5
            then (fst st @ [''name''], snd st @ [''heuristic:name_with_spaces''])
            else st)
      else st)"

text \<open>\<open>tags\<close> and \<open>reason_parts\<close> after the three steps.\<close>

definition column_tagging :: "df_column \<Rightarrow> tagging" where
  "column_tagging col = heuristic_step col (value_step col (name_step col ([], [])))"

text \<open>\<open>",".join(reason_parts) or "n/a"\<close>\<close>

definition reason_of :: "string list \<Rightarrow> string" where
  "reason_of reason_parts =
     (let joined = join '','' reason_parts in if joined \<noteq> [] then joined else ''n/a'')"

text \<open>What one column appends to \<open>results\<close>: one result when \<open>tags\<close> is not empty.\<close>

definition scan_column :: "string \<Rightarrow> df_column \<Rightarrow> ColumnPIIResult list" where
  "scan_column table_name col =
     (let st = column_tagging col
      in if fst st \<noteq> [] then
           [\<lparr> res_table = table_name,
              res_column = col_name col,
              detected_tags = sort (fst st),
              detection_reason = reason_of (snd st) \<rparr>]
         else [])"

text \<open>\<open>for col in df.columns\<close>, appending to \<open>results\<close>.\<close>

fun scan_loop :: "df_column list \<Rightarrow> string \<Rightarrow> ColumnPIIResult list \<Rightarrow> ColumnPIIResult list" where
  "scan_loop [] table_name results = results"
| "scan_loop (col # cols) table_name results =
     scan_loop cols table_name (results @ scan_column table_name col)"

definition scan_dataframe :: "df_column list \<Rightarrow> string \<Rightarrow> ColumnPIIResult list" where
  "scan_dataframe df table_name = scan_loop df table_name []"

section \<open>Inputs of the scenarios\<close>

text \<open>Scenario C: the rule \<open>no_ssn\<close> and the registry row of \<open>logs.ssn\<close>.\<close>

definition no_ssn :: policy where
  "no_ssn = \<lparr> rule_id = Some ''no_ssn'', forbidden_tags = Some [''national_id''],
     applies_to_tables = None, table_name_prefix = None, require_tag_for_detected = None \<rparr>"

definition logs_ssn :: registry_row where
  "logs_ssn = \<lparr> row_table = ''logs'', row_column = ''ssn'',
     row_pii_tags = Some ''national_id'', row_reason = ''name:national_id'' \<rparr>"

text \<open>Scenario D: the rule \<open>users_only\<close> and a row of the table \<open>logs\<close> tagged \<open>email\<close>.\<close>

definition users_only :: policy where
  "users_only = \<lparr> rule_id = Some ''users_only'', forbidden_tags = Some [''email''],
     applies_to_tables = Some [''users''], table_name_prefix = None,
     require_tag_for_detected = None \<rparr>"

definition logs_email :: registry_row where
  "logs_email = \<lparr> row_table = ''logs'', row_column = ''email'',
     row_pii_tags = Some ''email'', row_reason = ''name:email'' \<rparr>"

text \<open>A row of the table \<open>users\<close> tagged \<open>email\<close>, and a rule scoped by the prefix \<open>log\<close>.\<close>

definition users_email :: registry_row where
  "users_email = \<lparr> row_table = ''users'', row_column = ''email'',
     row_pii_tags = Some ''email'', row_reason = ''name:email'' \<rparr>"

definition log_tables_rule :: policy where
  "log_tables_rule = \<lparr> rule_id = Some ''log_tables'', forbidden_tags = Some [''email''],
     applies_to_tables = None, table_name_prefix = Some ''log'',
     require_tag_for_detected = None \<rparr>"

text \<open>A rule without an id that has both checks switched on, and a row with a null tag cell.\<close>

definition anonymous_rule :: policy where
  "anonymous_rule = \<lparr> rule_id = None, forbidden_tags = Some [''email''],
     applies_to_tables = None, table_name_prefix = None,
     require_tag_for_detected = Some True \<rparr>"

definition untagged_row :: registry_row where
  "untagged_row = \<lparr> row_table = ''logs'', row_column = ''payload'',
     row_pii_tags = None, row_reason = ''n/a'' \<rparr>"

text \<open>
  Columns: five values that each hold a tab and no space; five values that each hold a
  space; Scenario B's \<open>contact_field\<close>; the same values under the label \<open>ip_address\<close>;
  a numeric column; and a series with two e-mail addresses.
\<close>

definition notes_tabs :: df_column where
  "notes_tabs = \<lparr> col_name = ''notes'', col_is_object = True,
     col_cells = replicate 5 (Some [CHR ''a'', CHR 0x09, CHR ''b'']) \<rparr>"

definition notes_spaces :: df_column where
  "notes_spaces = \<lparr> col_name = ''notes'', col_is_object = True,
     col_cells = replicate 5 (Some ''a b'') \<rparr>"

definition contact_field :: df_column where
  "contact_field = \<lparr> col_name = ''contact_field'', col_is_object = True,
     col_cells = map Some [''a@b.com'', ''c@d.com'', ''e@f.com'', ''hello''] \<rparr>"

definition ip_address_emails :: df_column where
  "ip_address_emails = \<lparr> col_name = ''ip_address'', col_is_object = True,
     col_cells = map Some [''a@b.com'', ''c@d.com'', ''e@f.com'', ''hello''] \<rparr>"

definition amount :: df_column where
  "amount = \<lparr> col_name = ''amount'', col_is_object = False,
     col_cells = [Some ''1'', None, Some ''3''] \<rparr>"

definition people :: "df_column list" where
  "people = [ip_address_emails, amount, notes_spaces]"

definition two_emails :: "string option list" where
  "two_emails = [Some ''a@b.com'', None, Some ''c@d.com'', Some ''hello'']"

section \<open>Loop lemmas of the policy engine\<close>

lemma rows_loop_append:
  "rows_loop p rows acc = acc @ concat (map (row_violations p) rows)"
  by (induction rows arbitrary: acc) simp_all

lemma policies_loop_append:
  "policies_loop ps registry acc =
     acc @ concat (map (\<lambda>p. concat (map (row_violations p) registry)) ps)"
  by (induction ps arbitrary: acc) (simp_all add: rows_loop_append)

lemma evaluate_policies_concat:
  "evaluate_policies (Some ps) registry =
     concat (map (\<lambda>p. concat (map (row_violations p) registry)) ps)"
  by (simp add: evaluate_policies_def policies_loop_append)

lemma evaluate_policies_single:
  "evaluate_policies (Some [p]) [row] = row_violations p row"
  by (simp add: evaluate_policies_def)

lemma row_violations_length: "length (row_violations p row) \<le> 1"
  by (simp add: row_violations_def)

lemma row_violations_drop_id:
  "row_violations (p\<lparr>rule_id := None\<rparr>) =
     (\<lambda>row. map (\<lambda>v. v\<lparr>policy_id := None\<rparr>) (row_violations p row))"
  by (rule ext) (simp add: row_violations_def skip_by_tables_def skip_by_prefix_def
      applies_tables_of_def forbidden_of_def require_of_def forbidden_violation_def
      missing_violation_def)

section \<open>Lemmas of the tagging engine\<close>

lemma name_loop_Some: "name_loop cat s = Some t \<Longrightarrow> t \<in> set (map fst cat)"
  by (induction cat s rule: name_loop.induct) (auto split: if_splits)

lemma value_loop_Some: "value_loop cat s = Some t \<Longrightarrow> t \<in> set (map fst cat)"
  by (induction cat s rule: value_loop.induct) (auto split: if_splits)

lemma name_keys:
  "map fst PII_COLUMN_NAME_PATTERNS =
     [''email'', ''phone'', ''ip'', ''dob'', ''name'', ''national_id'']"
  by (simp add: PII_COLUMN_NAME_PATTERNS_def)

lemma value_keys:
  "map fst PII_VALUE_REGEXES = [''email'', ''phone'', ''ip'', ''dob'', ''national_id'']"
  by (simp add: PII_VALUE_REGEXES_def)

text \<open>Every tag of the catalogs is a non-empty string, so the truth tests on tags hold.\<close>

lemma detect_by_name_nonempty: "detect_by_name n = Some t \<Longrightarrow> t \<noteq> []"
  unfolding detect_by_name_def using name_loop_Some [of PII_COLUMN_NAME_PATTERNS "lower n" t]
  by (auto simp add: name_keys)

lemma detect_by_values_nonempty: "detect_by_values vs = Some t \<Longrightarrow> t \<noteq> []"
  unfolding detect_by_values_def Let_def
  using value_loop_Some [of PII_VALUE_REGEXES "take 50 (dropna vs)" t]
  by (auto simp add: value_keys split: if_splits)

lemma with_spaces_le: "with_spaces xs \<le> length xs"
  by (simp add: with_spaces_def)

text \<open>The three steps, by what the two detectors returned.\<close>

lemma column_tagging_cases:
  "column_tagging col =
     (case detect_by_name (col_name col) of
        Some a \<Rightarrow>
          (case detect_by_values (col_cells col) of
             None \<Rightarrow> ([a], [''name:'' @ a])
           | Some b \<Rightarrow> if b = a then ([a], [''name:'' @ a])
                       else ([a, b], [''name:'' @ a, ''value:'' @ b]))
      | None \<Rightarrow>
          (case detect_by_values (col_cells col) of
             Some b \<Rightarrow> ([b], [''value:'' @ b])
           | None \<Rightarrow>
               if col_is_object col \<and> 5 \<le> with_spaces (take 20 (dropna (col_cells col)))
               then ([''name''], [''heuristic:name_with_spaces''])
               else ([], [])))"
proof (cases "detect_by_name (col_name col)")
  case None
  note n = None
  show ?thesis
  proof (cases "detect_by_values (col_cells col)")
    case None
    have "5 \<le> with_spaces (take 20 (dropna (col_cells col))) \<Longrightarrow>
            take 20 (dropna (col_cells col)) \<noteq> []"
      using with_spaces_le [of "take 20 (dropna (col_cells col))"] by auto
    with n None show ?thesis
      by (auto simp add: column_tagging_def name_step_def value_step_def heuristic_step_def Let_def)
  next
    case (Some b)
    with n detect_by_values_nonempty [OF Some] show ?thesis
      by (simp add: column_tagging_def name_step_def value_step_def heuristic_step_def)
  qed
next
  case (Some a)
  note n = Some
  have a: "a \<noteq> []" using detect_by_name_nonempty [OF Some] .
  show ?thesis
  proof (cases "detect_by_values (col_cells col)")
    case None
    with n a show ?thesis
      by (simp add: column_tagging_def name_step_def value_step_def heuristic_step_def)
  next
    case (Some b)
    with n a detect_by_values_nonempty [OF Some] show ?thesis
      by (simp add: column_tagging_def name_step_def value_step_def heuristic_step_def)
  qed
qed

lemma column_tagging_distinct: "distinct (fst (column_tagging col))"
  by (simp add: column_tagging_cases split: option.splits)

lemma column_tagging_parts:
  "fst (column_tagging col) \<noteq> [] \<Longrightarrow>
     snd (column_tagging col) \<noteq> [] \<and> 5 \<le> length (hd (snd (column_tagging col)))"
  by (auto simp add: column_tagging_cases split: option.splits if_splits)

lemma scan_loop_append:
  "scan_loop cols t acc = acc @ concat (map (scan_column t) cols)"
  by (induction cols arbitrary: acc) simp_all

lemma scan_dataframe_concat:
  "scan_dataframe df t = concat (map (scan_column t) df)"
  by (simp add: scan_dataframe_def scan_loop_append)

lemma in_scan_dataframe:
  "r \<in> set (scan_dataframe df t) \<longleftrightarrow>
     (\<exists>col \<in> set df. fst (column_tagging col) \<noteq> [] \<and>
        r = \<lparr> res_table = t, res_column = col_name col,
              detected_tags = sort (fst (column_tagging col)),
              detection_reason = reason_of (snd (column_tagging col)) \<rparr>)"
  by (auto simp add: scan_dataframe_concat scan_column_def Let_def split: if_splits)

lemma value_loop_find:
  "value_loop cat sample =
     map_option fst (find (\<lambda>(tag, pattern). 3 \<le> length (filter (re_match pattern) sample)) cat)"
  by (induction cat sample rule: value_loop.induct) (simp_all add: matches_def)

lemma dropna_map_Some: "dropna (map Some xs) = xs"
  by (induction xs) simp_all

lemma join_length: "length x \<le> length (join sep (x # xs))"
  by (cases xs) simp_all

lemma reason_of_parts:
  assumes "parts \<noteq> []" and "5 \<le> length (hd parts)"
  shows "reason_of parts = join '','' parts \<and> reason_of parts \<noteq> [] \<and> reason_of parts \<noteq> ''n/a''"
proof -
  from assms(1) obtain x xs where p: "parts = x # xs" by (cases parts) auto
  with assms(2) have "5 \<le> length (join '','' parts)"
    using join_length [of x "'',''" xs] by simp
  then have "join '','' parts \<noteq> []" and "join '','' parts \<noteq> ''n/a''" by auto
  then show ?thesis by (simp add: reason_of_def)
qed


section \<open>Claims about the policy engine\<close>

subsection \<open>C1: the two checks on one policy and one row\<close>

text \<open>
  Claim C1 says that there are a policy and a registry row for which both the
  forbidden-tag check and the missing-tag check fire, so that two violations are
  emitted for the pair. No such pair exists: evaluating one policy against one row
  never yields a list of length two.
\<close>

theorem C1_counterexample:
  "\<not> (\<exists>p row. length (evaluate_policies (Some [p]) [row]) = 2)"
proof
  assume "\<exists>p row. length (evaluate_policies (Some [p]) [row]) = 2"
  then obtain p row where "length (row_violations p row) = 2"
    by (auto simp add: evaluate_policies_single)
  with row_violations_length [of p row] show False by simp
qed

text \<open>
  Claim C1, amended: for a single policy and a single registry row,
  \<open>evaluate_policies\<close> emits at most one violation. The forbidden-tag check fires only
  when the row's tag set meets \<open>forbidden_tags\<close>, hence is not empty, and the missing-tag
  check fires only when the tag set is empty, so the two conditions never hold together.
\<close>

theorem C1_checks_exclusive:
  "length (evaluate_policies (Some [p]) [row]) \<le> 1 \<and>
   \<not> ((forbidden_of p \<noteq> {} \<and> row_tags row \<inter> forbidden_of p \<noteq> {}) \<and>
       (require_of p \<and> row_tags row = {}))"
  using row_violations_length [of p row] by (auto simp add: evaluate_policies_single)

text \<open>
  The rule \<open>anonymous_rule\<close> has both checks switched on: it yields one violation for a
  row with a null tag cell, one for a row tagged \<open>email\<close>, and \<open>no_ssn\<close> yields none for
  the latter. Zero and one are both attained.
\<close>

theorem C1_checks_exclusive_witness:
  "length (evaluate_policies (Some [anonymous_rule]) [untagged_row]) \<le> 1 \<and>
   length (evaluate_policies (Some [anonymous_rule]) [untagged_row]) = 1 \<and>
   length (evaluate_policies (Some [anonymous_rule]) [logs_email]) = 1 \<and>
   length (evaluate_policies (Some [no_ssn]) [logs_email]) = 0"
proof -
  have "length (evaluate_policies (Some [anonymous_rule]) [untagged_row]) \<le> 1"
    using C1_checks_exclusive [of anonymous_rule untagged_row] by simp
  moreover have "length (evaluate_policies (Some [anonymous_rule]) [untagged_row]) = 1"
    by code_simp
  moreover have "length (evaluate_policies (Some [anonymous_rule]) [logs_email]) = 1"
    by code_simp
  moreover have "length (evaluate_policies (Some [no_ssn]) [logs_email]) = 0"
    by code_simp
  ultimately show ?thesis by simp
qed

subsection \<open>C2: a rule without an id\<close>

text \<open>
  Claim C2 says that a rule without an \<open>id\<close> makes the whole run fail before any row
  is evaluated, and that no violation list is produced. The code reads the id with
  \<open>policy.get("id")\<close> and validates nothing: the rule \<open>anonymous_rule\<close>, which has no
  id, is evaluated against the row and the run returns a violation whose \<open>policy_id\<close>
  is \<open>None\<close>.
\<close>

theorem C2_counterexample:
  "evaluate_policies (Some [anonymous_rule]) [logs_email] =
     [\<lparr> policy_id = None, table = ''logs'', column = ''email'', pii_tags = ''email'',
        reason = ''forbidden tags present: email'' \<rparr>]"
  by code_simp

text \<open>
  Claim C2, amended: a rule without an \<open>id\<close> is not rejected. \<open>evaluate_policies\<close>
  evaluates it like any other rule, and the violations it emits carry the \<open>policy_id\<close>
  \<open>None\<close>: removing the ids of the rules changes nothing of the output but the
  \<open>policy_id\<close> fields.
\<close>

theorem C2_missing_id_not_rejected:
  "evaluate_policies (Some (map (\<lambda>p. p\<lparr>rule_id := None\<rparr>) ps)) registry =
     map (\<lambda>v. v\<lparr>policy_id := None\<rparr>) (evaluate_policies (Some ps) registry)"
  by (simp add: evaluate_policies_concat map_concat comp_def row_violations_drop_id)

text \<open>Scenario C's rule with its id removed still reports the row.\<close>

theorem C2_missing_id_not_rejected_witness:
  "evaluate_policies (Some (map (\<lambda>p. p\<lparr>rule_id := None\<rparr>) [no_ssn])) [logs_ssn] =
     [\<lparr> policy_id = None, table = ''logs'', column = ''ssn'', pii_tags = ''national_id'',
        reason = ''forbidden tags present: national_id'' \<rparr>]"
proof -
  have "map (\<lambda>v. v\<lparr>policy_id := None\<rparr>) (evaluate_policies (Some [no_ssn]) [logs_ssn]) =
     [\<lparr> policy_id = None, table = ''logs'', column = ''ssn'', pii_tags = ''national_id'',
        reason = ''forbidden tags present: national_id'' \<rparr>]"
    by code_simp
  then show ?thesis
    using C2_missing_id_not_rejected [of "[no_ssn]" "[logs_ssn]"] by simp
qed

subsection \<open>C5: the forbidden-tag violation\<close>

text \<open>
  Claim C5: for every registry row that passes both scope tests and whose tag set meets
  the policy's \<open>forbidden_tags\<close> (which are then not empty), the policy yields exactly
  one violation for the row. Its reason is \<open>forbidden tags present: \<close> followed by the
  sorted, comma-joined intersection, and its \<open>pii_tags\<close> is the row's whole tag set,
  sorted and comma-joined.
\<close>

theorem C5_forbidden_violation:
  assumes "\<not> skip_by_tables p row" and "\<not> skip_by_prefix p row"
    and "row_tags row \<inter> forbidden_of p \<noteq> {}"
  shows "evaluate_policies (Some [p]) [row] =
     [\<lparr> policy_id = rule_id p, table = row_table row, column = row_column row,
        pii_tags = join '','' (sorted_list_of_set (row_tags row)),
        reason = ''forbidden tags present: '' @
                 join '','' (sorted_list_of_set (row_tags row \<inter> forbidden_of p)) \<rparr>]"
proof -
  from assms(3) have "forbidden_of p \<noteq> {}" and "row_tags row \<noteq> {}" by auto
  with assms show ?thesis
    by (simp add: evaluate_policies_single row_violations_def forbidden_violation_def)
qed

text \<open>
  Scenario C: the rule \<open>no_ssn\<close> against the row of \<open>logs.ssn\<close> yields exactly one
  violation, with the reason \<open>forbidden tags present: national_id\<close>.
\<close>

theorem C5_forbidden_violation_witness:
  "evaluate_policies (Some [no_ssn]) [logs_ssn] =
     [\<lparr> policy_id = Some ''no_ssn'', table = ''logs'', column = ''ssn'',
        pii_tags = ''national_id'', reason = ''forbidden tags present: national_id'' \<rparr>]"
proof -
  have a: "\<not> skip_by_tables no_ssn logs_ssn" by code_simp
  have b: "\<not> skip_by_prefix no_ssn logs_ssn" by code_simp
  have c: "row_tags logs_ssn \<inter> forbidden_of no_ssn \<noteq> {}" by code_simp
  have d: "[\<lparr> policy_id = rule_id no_ssn, table = row_table logs_ssn,
        column = row_column logs_ssn,
        pii_tags = join '','' (sorted_list_of_set (row_tags logs_ssn)),
        reason = ''forbidden tags present: '' @
                 join '','' (sorted_list_of_set (row_tags logs_ssn \<inter> forbidden_of no_ssn)) \<rparr>]
      = [\<lparr> policy_id = Some ''no_ssn'', table = ''logs'', column = ''ssn'',
        pii_tags = ''national_id'', reason = ''forbidden tags present: national_id'' \<rparr>]"
    by code_simp
  show ?thesis using C5_forbidden_violation [OF a b c] d by simp
qed

subsection \<open>C6: the scope filter\<close>

text \<open>
  Claim C6: the two scope filters combine with a logical and. A table list is set when
  \<open>applies_to_tables\<close> is given and not empty (the source's truth test), a prefix is set
  when \<open>table_name_prefix\<close> is given. If the table list is set and the row's table is
  not a member, or the prefix is set and the table name does not start with it, the
  policy yields nothing for the row: neither check runs. Otherwise, that is when the row
  satisfies every filter that is set, the policy yields what the two checks yield.
\<close>

theorem C6_scope_filter:
  "((\<exists>ts. applies_to_tables p = Some ts \<and> ts \<noteq> [] \<and> row_table row \<notin> set ts) \<or>
    (\<exists>pre. table_name_prefix p = Some pre \<and> \<not> startswith (row_table row) pre)
      \<longrightarrow> evaluate_policies (Some [p]) [row] = []) \<and>
   (\<not> ((\<exists>ts. applies_to_tables p = Some ts \<and> ts \<noteq> [] \<and> row_table row \<notin> set ts) \<or>
        (\<exists>pre. table_name_prefix p = Some pre \<and> \<not> startswith (row_table row) pre))
      \<longrightarrow> evaluate_policies (Some [p]) [row] =
            (if forbidden_of p \<noteq> {} \<and> row_tags row \<inter> forbidden_of p \<noteq> {}
             then [forbidden_violation p row] else []) @
            (if require_of p \<and> row_tags row = {} then [missing_violation p row] else []))"
  by (auto simp add: evaluate_policies_single row_violations_def skip_by_tables_def
      skip_by_prefix_def applies_tables_of_def startswith_def split: option.splits)

text \<open>
  Scenario D: the rule \<open>users_only\<close>, scoped to the table \<open>users\<close> and forbidding the tag
  \<open>email\<close>, yields no violation for a row of the table \<open>logs\<close> tagged \<open>email\<close>, and one
  for such a row of the table \<open>users\<close>. A rule scoped by the prefix \<open>log\<close> yields nothing
  for the row of \<open>users\<close>.
\<close>

theorem C6_scope_filter_witness:
  "evaluate_policies (Some [users_only]) [logs_email] = [] \<and>
   evaluate_policies (Some [log_tables_rule]) [users_email] = [] \<and>
   evaluate_policies (Some [users_only]) [users_email] =
     [\<lparr> policy_id = Some ''users_only'', table = ''users'', column = ''email'',
        pii_tags = ''email'', reason = ''forbidden tags present: email'' \<rparr>]"
proof -
  have "\<exists>ts. applies_to_tables users_only = Some ts \<and> ts \<noteq> [] \<and>
          row_table logs_email \<notin> set ts"
    by (simp add: users_only_def logs_email_def)
  then have 1: "evaluate_policies (Some [users_only]) [logs_email] = []"
    using C6_scope_filter [of users_only logs_email] by blast
  have "\<exists>pre. table_name_prefix log_tables_rule = Some pre \<and>
          \<not> startswith (row_table users_email) pre"
    by (simp add: log_tables_rule_def users_email_def startswith_def)
  then have 2: "evaluate_policies (Some [log_tables_rule]) [users_email] = []"
    using C6_scope_filter [of log_tables_rule users_email] by blast
  have "\<not> ((\<exists>ts. applies_to_tables users_only = Some ts \<and> ts \<noteq> [] \<and>
               row_table users_email \<notin> set ts) \<or>
            (\<exists>pre. table_name_prefix users_only = Some pre \<and>
               \<not> startswith (row_table users_email) pre))"
    by (simp add: users_only_def users_email_def)
  then have "evaluate_policies (Some [users_only]) [users_email] =
      (if forbidden_of users_only \<noteq> {} \<and> row_tags users_email \<inter> forbidden_of users_only \<noteq> {}
       then [forbidden_violation users_only users_email] else []) @
      (if require_of users_only \<and> row_tags users_email = {}
       then [missing_violation users_only users_email] else [])"
    using C6_scope_filter [of users_only users_email] by blast
  also have "\<dots> = [\<lparr> policy_id = Some ''users_only'', table = ''users'', column = ''email'',
        pii_tags = ''email'', reason = ''forbidden tags present: email'' \<rparr>]"
    by code_simp
  finally have 3: "evaluate_policies (Some [users_only]) [users_email] =
     [\<lparr> policy_id = Some ''users_only'', table = ''users'', column = ''email'',
        pii_tags = ''email'', reason = ''forbidden tags present: email'' \<rparr>]" .
  from 1 2 3 show ?thesis by simp
qed

subsection \<open>C8: order of the output\<close>

text \<open>
  Claim C8: \<open>evaluate_policies\<close> is deterministic and order-preserving. It is a function
  of its two arguments; the tag sets, whose iteration order Python leaves open, reach the
  output only through \<open>sorted\<close>. The output is the concatenation, in the order of the
  policies and then in the order of the registry rows, of what each policy yields for
  each row; so it splits along any split of the policy list and, for one policy, along
  any split of the registry.
\<close>

theorem C8_order_preserving:
  "evaluate_policies (Some ps) registry =
     concat (map (\<lambda>p. concat (map (\<lambda>row. evaluate_policies (Some [p]) [row]) registry)) ps) \<and>
   evaluate_policies (Some (ps @ qs)) registry =
     evaluate_policies (Some ps) registry @ evaluate_policies (Some qs) registry \<and>
   evaluate_policies (Some [p]) (rows @ rows') =
     evaluate_policies (Some [p]) rows @ evaluate_policies (Some [p]) rows' \<and>
   evaluate_policies None registry = []"
  by (simp add: evaluate_policies_concat evaluate_policies_single)
     (simp add: evaluate_policies_def)

text \<open>
  Two rules against three rows: the violations of the first rule come first, and those of
  the second rule follow in the order of the rows.
\<close>

theorem C8_order_preserving_witness:
  "map policy_id
     (evaluate_policies (Some [no_ssn, anonymous_rule]) [logs_email, logs_ssn, untagged_row])
     = [Some ''no_ssn'', None, None] \<and>
   map column
     (evaluate_policies (Some [no_ssn, anonymous_rule]) [logs_email, logs_ssn, untagged_row])
     = [''ssn'', ''email'', ''payload'']"
proof -
  have "evaluate_policies (Some [no_ssn, anonymous_rule]) [logs_email, logs_ssn, untagged_row] =
     concat (map (\<lambda>p. concat (map (\<lambda>row. evaluate_policies (Some [p]) [row])
        [logs_email, logs_ssn, untagged_row])) [no_ssn, anonymous_rule])"
    using C8_order_preserving [of "[no_ssn, anonymous_rule]"
        "[logs_email, logs_ssn, untagged_row]"]
    by blast
  moreover have "map policy_id (concat (map (\<lambda>p. concat (map
        (\<lambda>row. evaluate_policies (Some [p]) [row])
        [logs_email, logs_ssn, untagged_row])) [no_ssn, anonymous_rule]))
      = [Some ''no_ssn'', None, None]"
    by code_simp
  moreover have "map column (concat (map (\<lambda>p. concat (map
        (\<lambda>row. evaluate_policies (Some [p]) [row])
        [logs_email, logs_ssn, untagged_row])) [no_ssn, anonymous_rule]))
      = [''ssn'', ''email'', ''payload'']"
    by code_simp
  ultimately show ?thesis by simp
qed

section \<open>Claims about the tagging engine\<close>

subsection \<open>C3: the fallback heuristic\<close>

text \<open>
  Claim C3 says that, for a textual column on which neither detector produced a tag, the
  fallback assigns the tag \<open>name\<close> exactly when at least 5 of the first 20 non-null
  values contain a whitespace character. The code tests \<open>" " in v\<close>, the space character
  only. The column \<open>notes_tabs\<close> has the dtype \<open>object\<close>, no detector finds a tag for
  it, and each of its five values contains a tab, which is a whitespace character; yet
  the scan yields nothing for it.
\<close>

theorem C3_counterexample:
  "detect_by_name (col_name notes_tabs) = None \<and>
   detect_by_values (col_cells notes_tabs) = None \<and>
   col_is_object notes_tabs \<and>
   5 \<le> length (filter (list_ex is_space) (take 20 (dropna (col_cells notes_tabs)))) \<and>
   scan_dataframe [notes_tabs] ''t'' = []"
  by code_simp

text \<open>
  Claim C3, amended: for every column on which neither name detection nor value
  detection produced a tag and whose dtype is \<open>object\<close>, the fallback assigns the tag
  \<open>name\<close>, with the reason \<open>heuristic:name_with_spaces\<close>, exactly when at least 5 of the
  first 20 non-null values contain a space character (U+0020); otherwise the column
  yields no result. When a detector found a tag, or the dtype is not \<open>object\<close>, the
  fallback does not run: the tagging is what the first two steps left, and the
  fallback's marker is not among the reasons.
\<close>

theorem C3_fallback_heuristic:
  "(detect_by_name (col_name col) = None \<and> detect_by_values (col_cells col) = None \<and>
    col_is_object col \<longrightarrow>
      scan_column t col =
        (if 5 \<le> length (filter (\<lambda>v. CHR '' '' \<in> set v) (take 20 (dropna (col_cells col))))
         then [\<lparr> res_table = t, res_column = col_name col, detected_tags = [''name''],
                 detection_reason = ''heuristic:name_with_spaces'' \<rparr>]
         else [])) \<and>
   (detect_by_name (col_name col) \<noteq> None \<or> detect_by_values (col_cells col) \<noteq> None \<or>
    \<not> col_is_object col \<longrightarrow>
      column_tagging col = value_step col (name_step col ([], [])) \<and>
      ''heuristic:name_with_spaces'' \<notin> set (snd (column_tagging col)))"
proof (intro conjI impI)
  assume "detect_by_name (col_name col) = None \<and> detect_by_values (col_cells col) = None \<and>
    col_is_object col"
  then show "scan_column t col =
        (if 5 \<le> length (filter (\<lambda>v. CHR '' '' \<in> set v) (take 20 (dropna (col_cells col))))
         then [\<lparr> res_table = t, res_column = col_name col, detected_tags = [''name''],
                 detection_reason = ''heuristic:name_with_spaces'' \<rparr>]
         else [])"
    by (simp add: scan_column_def column_tagging_cases with_spaces_def reason_of_def)
next
  assume h: "detect_by_name (col_name col) \<noteq> None \<or> detect_by_values (col_cells col) \<noteq> None \<or>
    \<not> col_is_object col"
  have "fst (value_step col (name_step col ([], []))) \<noteq> [] \<or> \<not> col_is_object col"
    using h detect_by_name_nonempty [of "col_name col"]
      detect_by_values_nonempty [of "col_cells col"]
    by (auto simp add: name_step_def value_step_def split: option.splits)
  then show "column_tagging col = value_step col (name_step col ([], []))"
    by (auto simp add: column_tagging_def heuristic_step_def)
  show "''heuristic:name_with_spaces'' \<notin> set (snd (column_tagging col))"
    using h by (auto simp add: column_tagging_cases split: option.splits)
qed

text \<open>
  Five values with a space each give the tag \<open>name\<close>; on Scenario B's column value
  detection finds \<open>email\<close> and the fallback does not run.
\<close>

theorem C3_fallback_heuristic_witness:
  "scan_column ''t'' notes_spaces =
     [\<lparr> res_table = ''t'', res_column = ''notes'', detected_tags = [''name''],
        detection_reason = ''heuristic:name_with_spaces'' \<rparr>] \<and>
   column_tagging contact_field = value_step contact_field (name_step contact_field ([], []))"
proof -
  have a: "detect_by_name (col_name notes_spaces) = None \<and>
      detect_by_values (col_cells notes_spaces) = None \<and> col_is_object notes_spaces"
    by code_simp
  have b: "5 \<le> length (filter (\<lambda>v. CHR '' '' \<in> set v)
      (take 20 (dropna (col_cells notes_spaces))))"
    by code_simp
  have c: "col_name notes_spaces = ''notes''" by code_simp
  have d: "detect_by_values (col_cells contact_field) \<noteq> None" by code_simp
  from a b c have "scan_column ''t'' notes_spaces =
     [\<lparr> res_table = ''t'', res_column = ''notes'', detected_tags = [''name''],
        detection_reason = ''heuristic:name_with_spaces'' \<rparr>]"
    using C3_fallback_heuristic [of notes_spaces "''t''"] by simp
  moreover from d have "column_tagging contact_field =
      value_step contact_field (name_step contact_field ([], []))"
    using C3_fallback_heuristic [of contact_field] by blast
  ultimately show ?thesis by simp
qed

subsection \<open>C4: value detection\<close>

text \<open>
  Claim C4: value detection looks only at the first 50 non-null values, as text. For
  each tag of the value catalog, in catalog order, it counts the sampled values that the
  tag's pattern matches (\<open>pattern.match\<close> of a pattern anchored with \<open>^\<close> and \<open>$\<close>), and
  it returns the first tag that reaches 3 matches. When every tag matches 2 or fewer of
  the sampled values, it returns no tag.
\<close>

theorem C4_value_detection:
  "detect_by_values series =
     map_option fst
       (find (\<lambda>(tag, pattern). 3 \<le> length (filter (re_match pattern) (take 50 (dropna series))))
          PII_VALUE_REGEXES) \<and>
   detect_by_values series = detect_by_values (map Some (take 50 (dropna series))) \<and>
   ((\<forall>(tag, pattern) \<in> set PII_VALUE_REGEXES.
        length (filter (re_match pattern) (take 50 (dropna series))) \<le> 2)
      \<longrightarrow> detect_by_values series = None)"
proof -
  have 1: "detect_by_values series =
     map_option fst
       (find (\<lambda>(tag, pattern). 3 \<le> length (filter (re_match pattern) (take 50 (dropna series))))
          PII_VALUE_REGEXES)" for series
  proof (cases "take 50 (dropna series) = []")
    case True
    have "find (\<lambda>(tag, pattern). 3 \<le> length (filter (re_match pattern) [])) cat = None"
      for cat :: "(string \<times> regex) list"
      by (induction cat) auto
    with True show ?thesis by (simp add: detect_by_values_def)
  next
    case False
    then show ?thesis by (simp add: detect_by_values_def value_loop_find)
  qed
  have 2: "detect_by_values series = detect_by_values (map Some (take 50 (dropna series)))"
    by (simp add: 1 [of series] 1 [of "map Some (take 50 (dropna series))"] dropna_map_Some)
  have 3: "(\<forall>(tag, pattern) \<in> set PII_VALUE_REGEXES.
        length (filter (re_match pattern) (take 50 (dropna series))) \<le> 2)
      \<longrightarrow> detect_by_values series = None"
  proof
    assume h: "\<forall>(tag, pattern) \<in> set PII_VALUE_REGEXES.
        length (filter (re_match pattern) (take 50 (dropna series))) \<le> 2"
    have "find (\<lambda>(tag, pattern). 3 \<le> length (filter (re_match pattern) (take 50 (dropna series))))
          PII_VALUE_REGEXES = None"
      unfolding find_None_iff using h by fastforce
    then show "detect_by_values series = None" by (simp add: 1)
  qed
  from 1 2 3 show ?thesis by blast
qed

text \<open>
  Two e-mail addresses among the sampled values give no tag; Scenario B's three among
  four give \<open>email\<close>.
\<close>

theorem C4_value_detection_witness:
  "detect_by_values two_emails = None \<and>
   detect_by_values (col_cells contact_field) = Some ''email''"
proof -
  have h: "\<forall>(tag, pattern) \<in> set PII_VALUE_REGEXES.
        length (filter (re_match pattern) (take 50 (dropna two_emails))) \<le> 2"
    by code_simp
  have "detect_by_values two_emails = None"
    using C4_value_detection [of two_emails] h by blast
  moreover have "detect_by_values (col_cells contact_field) = Some ''email''" by code_simp
  ultimately show ?thesis by simp
qed

subsection \<open>C7: no result without tags\<close>

text \<open>
  Claim C7: for every data frame and table name, every result of the scan has a
  non-empty list of tags, without duplicates and sorted. The results are exactly the
  columns whose tagging is not empty, in column order: a column without a tag has no
  result.
\<close>

theorem C7_registry_rows_tagged:
  "(\<forall>r \<in> set (scan_dataframe df t).
      detected_tags r \<noteq> [] \<and> distinct (detected_tags r) \<and> sorted (detected_tags r)) \<and>
   map res_column (scan_dataframe df t) =
     map col_name (filter (\<lambda>col. fst (column_tagging col) \<noteq> []) df)"
proof
  show "\<forall>r \<in> set (scan_dataframe df t).
      detected_tags r \<noteq> [] \<and> distinct (detected_tags r) \<and> sorted (detected_tags r)"
  proof
    fix r assume "r \<in> set (scan_dataframe df t)"
    then obtain col where c: "fst (column_tagging col) \<noteq> []"
      and r: "detected_tags r = sort (fst (column_tagging col))"
      by (auto simp add: in_scan_dataframe)
    have "sort (fst (column_tagging col)) \<noteq> []"
      using c by (metis length_sort length_0_conv)
    with r show "detected_tags r \<noteq> [] \<and> distinct (detected_tags r) \<and> sorted (detected_tags r)"
      by (simp add: column_tagging_distinct)
  qed
  show "map res_column (scan_dataframe df t) =
     map col_name (filter (\<lambda>col. fst (column_tagging col) \<noteq> []) df)"
    unfolding scan_dataframe_concat
    by (induction df) (simp_all add: scan_column_def Let_def)
qed

text \<open>
  The data frame \<open>people\<close> has three columns; the numeric column \<open>amount\<close> gets no tag
  and no result, and the tags of the two results are sorted.
\<close>

theorem C7_registry_rows_tagged_witness:
  "map detected_tags (scan_dataframe people ''people'') = [[''email'', ''ip''], [''name'']] \<and>
   list_all (\<lambda>r. detected_tags r \<noteq> [] \<and> distinct (detected_tags r) \<and> sorted (detected_tags r))
     (scan_dataframe people ''people'')"
proof -
  have "map detected_tags (scan_dataframe people ''people'') = [[''email'', ''ip''], [''name'']]"
    by code_simp
  moreover have "list_all
      (\<lambda>r. detected_tags r \<noteq> [] \<and> distinct (detected_tags r) \<and> sorted (detected_tags r))
      (scan_dataframe people ''people'')"
    using C7_registry_rows_tagged [of people "''people''"] by (simp add: list_all_iff)
  ultimately show ?thesis by simp
qed

subsection \<open>C9: the default reason\<close>

text \<open>
  Claim C9: the default reason \<open>n/a\<close> is unreachable. Every result of the scan belongs to
  a column for which at least one marker was recorded, and its \<open>detection_reason\<close> is
  the comma-joined list of these markers: a non-empty string other than \<open>n/a\<close>.
\<close>

theorem C9_default_reason_unreachable:
  "\<forall>r \<in> set (scan_dataframe df t).
      detection_reason r \<noteq> ''n/a'' \<and> detection_reason r \<noteq> [] \<and>
      (\<exists>col \<in> set df. res_column r = col_name col \<and> snd (column_tagging col) \<noteq> [] \<and>
         detection_reason r = join '','' (snd (column_tagging col)))"
proof
  fix r assume "r \<in> set (scan_dataframe df t)"
  then obtain col where c: "col \<in> set df" "fst (column_tagging col) \<noteq> []"
    and r: "detection_reason r = reason_of (snd (column_tagging col))"
       "res_column r = col_name col"
    by (auto simp add: in_scan_dataframe)
  from column_tagging_parts [OF c(2)] reason_of_parts [of "snd (column_tagging col)"]
  have "reason_of (snd (column_tagging col)) = join '','' (snd (column_tagging col))"
    and "reason_of (snd (column_tagging col)) \<noteq> []"
    and "reason_of (snd (column_tagging col)) \<noteq> ''n/a''"
    and "snd (column_tagging col) \<noteq> []"
    by blast+
  with c r show "detection_reason r \<noteq> ''n/a'' \<and> detection_reason r \<noteq> [] \<and>
      (\<exists>col \<in> set df. res_column r = col_name col \<and> snd (column_tagging col) \<noteq> [] \<and>
         detection_reason r = join '','' (snd (column_tagging col)))"
    by auto
qed

text \<open>The reasons of the two results of \<open>people\<close>.\<close>

theorem C9_default_reason_unreachable_witness:
  "map detection_reason (scan_dataframe people ''people'') =
     [''name:ip,value:email'', ''heuristic:name_with_spaces''] \<and>
   list_all (\<lambda>r. detection_reason r \<noteq> ''n/a'' \<and> detection_reason r \<noteq> [])
     (scan_dataframe people ''people'')"
proof -
  have "map detection_reason (scan_dataframe people ''people'') =
     [''name:ip,value:email'', ''heuristic:name_with_spaces'']"
    by code_simp
  moreover have "list_all (\<lambda>r. detection_reason r \<noteq> ''n/a'' \<and> detection_reason r \<noteq> [])
     (scan_dataframe people ''people'')"
    using C9_default_reason_unreachable [of people "''people''"] by (simp add: list_all_iff)
  ultimately show ?thesis by simp
qed

subsection \<open>C10: at most two tags\<close>

text \<open>
  Claim C10: every result of the scan carries at most two tags. It has one tag, which is
  the name-derived tag alone (value detection found nothing, or the same tag), the
  value-derived tag alone, or the fallback tag \<open>name\<close>; or it has exactly two tags, the
  name-derived tag and a different value-derived tag. The fallback tag stands alone: it
  occurs only when neither detector found a tag.
\<close>

theorem C10_at_most_two_tags:
  assumes "r \<in> set (scan_dataframe df t)"
  shows "length (detected_tags r) \<le> 2 \<and>
    (\<exists>col \<in> set df. res_column r = col_name col \<and>
       ((\<exists>a. detect_by_name (col_name col) = Some a \<and>
             detect_by_values (col_cells col) \<in> {None, Some a} \<and>
             detected_tags r = [a] \<and> detection_reason r = ''name:'' @ a) \<or>
        (\<exists>b. detect_by_name (col_name col) = None \<and>
             detect_by_values (col_cells col) = Some b \<and>
             detected_tags r = [b] \<and> detection_reason r = ''value:'' @ b) \<or>
        (detect_by_name (col_name col) = None \<and> detect_by_values (col_cells col) = None \<and>
             detected_tags r = [''name''] \<and>
             detection_reason r = ''heuristic:name_with_spaces'') \<or>
        (\<exists>a b. detect_by_name (col_name col) = Some a \<and>
             detect_by_values (col_cells col) = Some b \<and> a \<noteq> b \<and>
             detected_tags r = sort [a, b] \<and> length (detected_tags r) = 2 \<and>
             detection_reason r = ''name:'' @ a @ '','' @ ''value:'' @ b)))"
proof -
  from assms obtain col where c: "col \<in> set df" "fst (column_tagging col) \<noteq> []"
    and rc: "res_column r = col_name col"
    and dt: "detected_tags r = sort (fst (column_tagging col))"
    and dr: "detection_reason r = reason_of (snd (column_tagging col))"
    by (auto simp add: in_scan_dataframe)
  have len: "length (detected_tags r) \<le> 2"
    using dt by (simp add: column_tagging_cases split: option.splits)
  have cases: "(\<exists>a. detect_by_name (col_name col) = Some a \<and>
             detect_by_values (col_cells col) \<in> {None, Some a} \<and>
             detected_tags r = [a] \<and> detection_reason r = ''name:'' @ a) \<or>
        (\<exists>b. detect_by_name (col_name col) = None \<and>
             detect_by_values (col_cells col) = Some b \<and>
             detected_tags r = [b] \<and> detection_reason r = ''value:'' @ b) \<or>
        (detect_by_name (col_name col) = None \<and> detect_by_values (col_cells col) = None \<and>
             detected_tags r = [''name''] \<and>
             detection_reason r = ''heuristic:name_with_spaces'') \<or>
        (\<exists>a b. detect_by_name (col_name col) = Some a \<and>
             detect_by_values (col_cells col) = Some b \<and> a \<noteq> b \<and>
             detected_tags r = sort [a, b] \<and> length (detected_tags r) = 2 \<and>
             detection_reason r = ''name:'' @ a @ '','' @ ''value:'' @ b)"
    using c(2) dt dr
    by (auto simp add: column_tagging_cases reason_of_def split: option.splits if_splits)
  show ?thesis
  proof (intro conjI bexI [of _ col])
    show "length (detected_tags r) \<le> 2" by (rule len)
    show "res_column r = col_name col" by (rule rc)
    show "col \<in> set df" by (rule c(1))
  qed (rule cases)
qed

text \<open>
  The column \<open>ip_address\<close> with e-mail values gets the two tags \<open>ip\<close> (by name) and
  \<open>email\<close> (by values), sorted.
\<close>

theorem C10_at_most_two_tags_witness:
  "length (detected_tags (hd (scan_dataframe people ''people''))) \<le> 2 \<and>
   detected_tags (hd (scan_dataframe people ''people'')) = [''email'', ''ip'']"
proof -
  have m: "hd (scan_dataframe people ''people'') \<in> set (scan_dataframe people ''people'')"
    by code_simp
  have "detected_tags (hd (scan_dataframe people ''people'')) = [''email'', ''ip'']"
    by code_simp
  with C10_at_most_two_tags [OF m] show ?thesis by simp
qed

end
